theory Spec2Isabelle
  imports Main "HOL-Library.Word"
begin

section \<open>The katsubushi exporter: statistics client and poll loop\<close>

text \<open>
  The repository is one Go file, \<^verbatim>\<open>main.go\<close>. Its logic is the function
  \<^verbatim>\<open>getKatsubushiStats\<close>, which dials the katsubushi server, sends \<^verbatim>\<open>STATS\<close> and
  parses the line-oriented reply into two maps, and the goroutine of \<^verbatim>\<open>main\<close>, which
  calls it forever and publishes the result to seven Prometheus gauge vectors.

  Everything the code takes from outside is an input of the model:
  \<^item> the outcome of \<^verbatim>\<open>net.Dial\<close> and what the \<^verbatim>\<open>bufio.Scanner\<close> then delivers (type \<open>dial\<close>);
  \<^item> \<^verbatim>\<open>strconv.ParseFloat(_, 64)\<close>, a parameter \<open>pf\<close> of type \<open>string \<Rightarrow> error + 'f\<close>,
    where \<open>'f\<close> stands for \<^verbatim>\<open>float64\<close>; the code only stores these values, reads Go's
    zero value for a missing key and writes the constant \<^verbatim>\<open>float64(1)\<close>, so \<open>'f\<close> is any
    type with a \<open>0\<close> and a \<open>1\<close>;
  \<^item> \<^verbatim>\<open>utf8.ValidString\<close>, by which the gauge library accepts a label value, a parameter
    \<open>valid\<close> of type \<open>string \<Rightarrow> bool\<close>.
  A run-time panic (an index out of range in the parser, a refused label value in the gauge
  library) is a result of its own, since a panic in the goroutine ends the process.

  Not modelled, since no result of the code depends on them: the write of the command
  (its error is dropped), the deferred \<^verbatim>\<open>conn.Close()\<close>, the flags and the HTTP server.
\<close>

subsection \<open>Values of the Go run time\<close>

text \<open>A Go \<^verbatim>\<open>error\<close> value; the code never inspects one, it only returns or logs it.\<close>

datatype error = Error string

text \<open>
  \<^verbatim>\<open>strings.Split(s, sep)\<close> for a separator of one byte: the substrings between the
  separators, in order. \<open>cur\<close> holds the bytes of the current substring, latest first.
  The Go function returns a slice with one more element than there are separators in
  \<^verbatim>\<open>s\<close>.
\<close>

fun split_from :: "char \<Rightarrow> string \<Rightarrow> string \<Rightarrow> string list" where
  "split_from sep cur [] = [rev cur]"
| "split_from sep cur (c # cs) =
     (if c = sep then rev cur # split_from sep [] cs else split_from sep (c # cur) cs)"

definition Split :: "string \<Rightarrow> char \<Rightarrow> string list" where
  "Split s sep = split_from sep [] s"

text \<open>
  An index expression \<^verbatim>\<open>res[i]\<close> on a slice: Go panics when \<^verbatim>\<open>i\<close> is out of range, which
  is \<open>None\<close> here.
\<close>

definition index :: "'a list \<Rightarrow> nat \<Rightarrow> 'a option" where
  "index xs i = (if i < length xs then Some (xs ! i) else None)"

text \<open>
  A Go map value is a reference that may be \<^verbatim>\<open>nil\<close> (\<open>None\<close>). Reading a key of a
  \<^verbatim>\<open>nil\<close> map, or a key that is absent, gives the zero value of the element type: the
  empty string for \<^verbatim>\<open>map[string]string\<close>, zero for \<^verbatim>\<open>map[string]float64\<close>.
\<close>

definition str_at :: "(string \<rightharpoonup> string) option \<Rightarrow> string \<Rightarrow> string" where
  "str_at m k = (case m of None \<Rightarrow> [] | Some f \<Rightarrow> (case f k of None \<Rightarrow> [] | Some v \<Rightarrow> v))"

definition num_at :: "(string \<rightharpoonup> 'f::zero) option \<Rightarrow> string \<Rightarrow> 'f" where
  "num_at m k = (case m of None \<Rightarrow> 0 | Some f \<Rightarrow> (case f k of None \<Rightarrow> 0 | Some v \<Rightarrow> v))"

subsection \<open>The connection and its scanner\<close>

text \<open>
  \<^verbatim>\<open>net.Dial\<close> fails with an error, or gives a connection that the code wraps in a
  \<^verbatim>\<open>bufio.Scanner\<close> (line splitting). The scanner is what the loop observes of it: the
  lines for which \<^verbatim>\<open>sc.Scan()\<close> returns true, in order, each with the value \<^verbatim>\<open>sc.Err()\<close>
  would return if it were called right after that line (the scanner hands out the last,
  unterminated line after a read error has been recorded), and the value of \<^verbatim>\<open>sc.Err()\<close>
  once \<^verbatim>\<open>sc.Scan()\<close> has returned false: \<open>None\<close> at end of stream, the read error
  otherwise.
\<close>

datatype dial =
    DialFailed error
  | Connected "(string \<times> error option) list" "error option"

subsection \<open>getKatsubushiStats\<close>

type_synonym 'f fields = "(string \<rightharpoonup> string) \<times> (string \<rightharpoonup> 'f)"

text \<open>What the body of the scan loop does with one line that is not \<^verbatim>\<open>END\<close>.\<close>

datatype 'f step =
    Next "'f fields"
  | ParseFail error
  | IndexPanic

text \<open>
  Lines 135 to 146: the line is split on single spaces; \<^verbatim>\<open>res[0]\<close>, \<^verbatim>\<open>res[1]\<close> and
  \<^verbatim>\<open>res[2]\<close> are read with no check of \<^verbatim>\<open>len(res)\<close>.
\<close>

definition stat_line :: "(string \<Rightarrow> error + 'f) \<Rightarrow> 'f fields \<Rightarrow> string \<Rightarrow> 'f step" where
  "stat_line pf st s =
     (let res = Split s CHR '' '' in
      case index res 0 of
        None \<Rightarrow> IndexPanic
      | Some r0 \<Rightarrow>
          if r0 = ''STAT'' then
            (case index res 1 of
               None \<Rightarrow> IndexPanic
             | Some r1 \<Rightarrow>
                 if r1 = ''pid'' \<or> r1 = ''version'' then
                   (case index res 2 of
                      None \<Rightarrow> IndexPanic
                    | Some r2 \<Rightarrow> Next ((fst st)(r1 \<mapsto> r2), snd st))
                 else
                   (case index res 2 of
                      None \<Rightarrow> IndexPanic
                    | Some r2 \<Rightarrow>
                        (case pf r2 of
                           Inr f \<Rightarrow> Next (fst st, (snd st)(r1 \<mapsto> f))
                         | Inl err \<Rightarrow> ParseFail err)))
          else Next st)"

text \<open>
  What a call of \<^verbatim>\<open>getKatsubushiStats\<close> ends in: the returned triple
  \<^verbatim>\<open>(info, stats, err)\<close>, each component possibly \<^verbatim>\<open>nil\<close>, or a panic.
\<close>

datatype 'f outcome =
    Returned "(string \<rightharpoonup> string) option" "(string \<rightharpoonup> 'f) option" "error option"
  | Panicked

text \<open>
  Lines 129 to 149: the loop \<^verbatim>\<open>for sc.Scan()\<close>. It leaves by \<^verbatim>\<open>break\<close> at a line equal to
  \<^verbatim>\<open>END\<close> or when \<^verbatim>\<open>sc.Scan()\<close> returns false, and then returns both maps with
  \<^verbatim>\<open>sc.Err()\<close>; a value that does not parse returns \<^verbatim>\<open>nil, nil, err\<close> from inside the loop.
\<close>

fun scan_loop ::
  "(string \<Rightarrow> error + 'f) \<Rightarrow> 'f fields \<Rightarrow> (string \<times> error option) list \<Rightarrow> error option \<Rightarrow>
   'f outcome" where
  "scan_loop pf st [] fin = Returned (Some (fst st)) (Some (snd st)) fin"
| "scan_loop pf st ((s, e) # rest) fin =
     (if s = ''END'' then Returned (Some (fst st)) (Some (snd st)) e
      else
        (case stat_line pf st s of
           Next st' \<Rightarrow> scan_loop pf st' rest fin
         | ParseFail err \<Rightarrow> Returned None None (Some err)
         | IndexPanic \<Rightarrow> Panicked))"

definition getKatsubushiStats :: "(string \<Rightarrow> error + 'f) \<Rightarrow> dial \<Rightarrow> 'f outcome" where
  "getKatsubushiStats pf d =
     (case d of
        DialFailed err \<Rightarrow> Returned None None (Some err)
      | Connected toks fin \<Rightarrow> scan_loop pf (Map.empty, Map.empty) toks fin)"

subsection \<open>The gauges and the poll loop\<close>

text \<open>
  A \<^verbatim>\<open>prometheus.GaugeVec\<close> holds one gauge for each combination of label values that
  \<^verbatim>\<open>With\<close> has been called with; \<^verbatim>\<open>With(l).Set(v)\<close> creates the gauge when it is not there
  and stores \<open>v\<close>. The key is the list of label values in the order of the vector's label
  names: version and pid for \<^verbatim>\<open>katsubushiInfo\<close>, no label for the six others. \<^verbatim>\<open>With\<close> panics
  when a label value is not valid UTF-8; the label names of the code are those of the
  vectors, so it panics for no other reason.
\<close>

type_synonym 'f gaugevec = "string list \<rightharpoonup> 'f"

record 'f gauges =
  katsubushiInfo :: "'f gaugevec"
  katsubushiUptime :: "'f gaugevec"
  katsubushiCurrConnections :: "'f gaugevec"
  katsubushiTotalConnections :: "'f gaugevec"
  katsubushiCmdGet :: "'f gaugevec"
  katsubushiGetHits :: "'f gaugevec"
  katsubushiGetMisses :: "'f gaugevec"

text \<open>Lines 47 to 103: the seven vectors as \<^verbatim>\<open>prometheus.NewGaugeVec\<close> makes them, with no gauge yet.\<close>

definition fresh_gauges :: "'f gauges" where
  "fresh_gauges =
     \<lparr> katsubushiInfo = Map.empty, katsubushiUptime = Map.empty,
        katsubushiCurrConnections = Map.empty, katsubushiTotalConnections = Map.empty,
        katsubushiCmdGet = Map.empty, katsubushiGetHits = Map.empty,
        katsubushiGetMisses = Map.empty \<rparr>"

definition retryDuration :: int where
  "retryDuration = 1"

text \<open>
  A \<^verbatim>\<open>time.Duration\<close> is an \<^verbatim>\<open>int64\<close> of nanoseconds, and \<^verbatim>\<open>time.Second\<close> is the constant
  \<open>10\<^sup>9\<close>. The expression \<^verbatim>\<open>time.Duration(n) * time.Second\<close> converts the Go \<^verbatim>\<open>int\<close> \<open>n\<close>
  to \<^verbatim>\<open>int64\<close> and multiplies there, which wraps around; \<open>sint\<close> reads the result.
\<close>

definition Second :: "64 word" where
  "Second = 1000000000"

definition seconds :: "int \<Rightarrow> 64 word" where
  "seconds n = word_of_int n * Second"

datatype log_entry = LogError error | LogInfo string

text \<open>
  Lines 169 to 180: the seven \<^verbatim>\<open>With(..).Set(..)\<close> calls of a cycle that publishes. The
  first one, on \<^verbatim>\<open>katsubushiInfo\<close>, is the only one with label values; when \<^verbatim>\<open>With\<close>
  refuses one of them it panics before any gauge has been set, which is \<open>None\<close> here.
\<close>

definition publish ::
  "(string \<Rightarrow> bool) \<Rightarrow> (string \<rightharpoonup> string) option \<Rightarrow> (string \<rightharpoonup> 'f) option \<Rightarrow>
   'f gauges \<Rightarrow> ('f::{zero,one}) gauges option" where
  "publish valid info stats g =
     (if valid (str_at info ''version'') \<and> valid (str_at info ''pid'') then
        Some (g\<lparr>
          katsubushiInfo :=
            (katsubushiInfo g)([str_at info ''version'', str_at info ''pid''] \<mapsto> 1),
          katsubushiUptime := (katsubushiUptime g)([] \<mapsto> num_at stats ''uptime''),
          katsubushiCurrConnections :=
            (katsubushiCurrConnections g)([] \<mapsto> num_at stats ''curr_connections''),
          katsubushiTotalConnections :=
            (katsubushiTotalConnections g)([] \<mapsto> num_at stats ''total_connections''),
          katsubushiCmdGet := (katsubushiCmdGet g)([] \<mapsto> num_at stats ''cmd_get''),
          katsubushiGetHits := (katsubushiGetHits g)([] \<mapsto> num_at stats ''get_hits''),
          katsubushiGetMisses := (katsubushiGetMisses g)([] \<mapsto> num_at stats ''get_misses'') \<rparr>)
      else None)"

text \<open>
  One iteration of the \<^verbatim>\<open>for\<close> loop of the goroutine (lines 158 to 181): the gauges
  after it, the line it logged and the duration it passed to \<^verbatim>\<open>time.Sleep\<close> (which returns
  at once when the duration is not positive); or the process has died of a panic, in the
  fetch or in the first \<^verbatim>\<open>With\<close>. \<open>metricsInterval\<close> is the value of the flag.
\<close>

datatype 'f cycle =
    Slept "'f gauges" "log_entry option" "64 word"
  | Crashed

definition poll_cycle ::
  "(string \<Rightarrow> error + 'f) \<Rightarrow> (string \<Rightarrow> bool) \<Rightarrow> int \<Rightarrow> dial \<Rightarrow> 'f gauges \<Rightarrow>
   ('f::{zero,one}) cycle" where
  "poll_cycle pf valid metricsInterval d g =
     (case getKatsubushiStats pf d of
        Panicked \<Rightarrow> Crashed
      | Returned info stats err \<Rightarrow>
          (case err of
             Some e \<Rightarrow> Slept g (Some (LogError e)) (seconds retryDuration)
           | None \<Rightarrow>
               if str_at info ''version'' = [] \<or> str_at info ''pid'' = [] then
                 Slept g (Some (LogInfo ''Retry since info(version or pid) is empty''))
                   (seconds retryDuration)
               else
                 (case publish valid info stats g of
                    None \<Rightarrow> Crashed
                  | Some g' \<Rightarrow> Slept g' None (seconds metricsInterval))))"

text \<open>
  The loop never ends by itself. A run is given by what each successive dial meets; the
  result is the gauges after these iterations, or \<open>None\<close> when one of them panicked.
\<close>

fun poll_loop ::
  "(string \<Rightarrow> error + 'f) \<Rightarrow> (string \<Rightarrow> bool) \<Rightarrow> int \<Rightarrow> 'f gauges \<Rightarrow> dial list \<Rightarrow>
   ('f::{zero,one}) gauges option" where
  "poll_loop pf valid metricsInterval g [] = Some g"
| "poll_loop pf valid metricsInterval g (d # ds) =
     (case poll_cycle pf valid metricsInterval d g of
        Crashed \<Rightarrow> None
      | Slept g' l t \<Rightarrow> poll_loop pf valid metricsInterval g' ds)"

subsection \<open>Notions used to state the properties\<close>

text \<open>
  A line is handled without failure when the loop body neither panics nor returns on it.
  Whether it does depends on the line and on \<open>pf\<close> only (lemma \<open>line_ok_Next\<close> below), so
  the empty fields serve to test it.
\<close>

definition line_ok :: "(string \<Rightarrow> error + 'f) \<Rightarrow> string \<Rightarrow> bool" where
  "line_ok pf s =
     (case stat_line pf (Map.empty, Map.empty) s of
        Next st' \<Rightarrow> True
      | ParseFail err \<Rightarrow> False
      | IndexPanic \<Rightarrow> False)"

text \<open>
  The fields accumulated once the loop body has run on a line, and on a list of lines in
  order; a line on which the body fails leaves them as they are.
\<close>

definition fields_after :: "(string \<Rightarrow> error + 'f) \<Rightarrow> 'f fields \<Rightarrow> string \<Rightarrow> 'f fields" where
  "fields_after pf st s =
     (case stat_line pf st s of
        Next st' \<Rightarrow> st'
      | ParseFail err \<Rightarrow> st
      | IndexPanic \<Rightarrow> st)"

definition accumulated :: "(string \<Rightarrow> error + 'f) \<Rightarrow> 'f fields \<Rightarrow> string list \<Rightarrow> 'f fields" where
  "accumulated pf st ls = foldl (fields_after pf) st ls"

text \<open>
  A stand-in for \<^verbatim>\<open>strconv.ParseFloat\<close> to run the model on concrete replies: it reads
  an unsigned decimal integer and rejects everything else. On the values used below
  (\<^verbatim>\<open>100\<close>, \<^verbatim>\<open>7\<close>, \<^verbatim>\<open>abc\<close>) it accepts and rejects as \<^verbatim>\<open>ParseFloat\<close> does.
\<close>

fun decimal :: "nat \<Rightarrow> string \<Rightarrow> nat option" where
  "decimal acc [] = Some acc"
| "decimal acc (c # cs) =
     (if 48 \<le> (of_char c :: nat) \<and> (of_char c :: nat) \<le> 57
      then decimal (10 * acc + (of_char c - 48)) cs
      else None)"

definition pf_sample :: "string \<Rightarrow> error + int" where
  "pf_sample v =
     (if v = [] then Inl (Error ''invalid syntax'')
      else
        (case decimal 0 v of
           Some n \<Rightarrow> Inr (int n)
         | None \<Rightarrow> Inl (Error ''invalid syntax'')))"

text \<open>
  A stand-in for \<^verbatim>\<open>utf8.ValidString\<close> to run the model: it accepts the strings of ASCII
  bytes, which are valid UTF-8, and refuses every other string. On the label values used
  below (ASCII strings, and the single byte \<^verbatim>\<open>0xFF\<close>, which no UTF-8 text contains) it
  decides as \<^verbatim>\<open>utf8.ValidString\<close> does.
\<close>

definition ascii_only :: "string \<Rightarrow> bool" where
  "ascii_only s = list_all (\<lambda>c. (of_char c :: nat) < 128) s"

text \<open>
  A line that the loop body can index: it is not a \<^verbatim>\<open>STAT\<close> line with fewer than three
  tokens. Every line \<^verbatim>\<open>STAT key value\<close> of the protocol is one.
\<close>

definition indexable :: "string \<Rightarrow> bool" where
  "indexable s =
     (if index (Split s CHR '' '') 0 = Some ''STAT'' then 3 \<le> length (Split s CHR '' '')
      else True)"

text \<open>
  The keys of the two maps are kept apart: only \<^verbatim>\<open>pid\<close> and \<^verbatim>\<open>version\<close> in the info map,
  neither of them in the stats map.
\<close>

definition separated :: "'f fields \<Rightarrow> bool" where
  "separated st =
     (dom (fst st) \<subseteq> {''pid'', ''version''} \<and>
      ''pid'' \<notin> dom (snd st) \<and> ''version'' \<notin> dom (snd st))"

text \<open>A key is absent from the stats map a call returned.\<close>

definition absent :: "(string \<rightharpoonup> 'f) option \<Rightarrow> string \<Rightarrow> bool" where
  "absent stats k = (case stats of None \<Rightarrow> True | Some m \<Rightarrow> m k = None)"

text \<open>Gauges as an earlier cycle may have left them, to run the poll loop on.\<close>

definition stale_gauges :: "int gauges" where
  "stale_gauges =
     fresh_gauges\<lparr> katsubushiUptime := [[] \<mapsto> 7], katsubushiCmdGet := [[] \<mapsto> 7] \<rparr>"

section \<open>Properties\<close>

subsection \<open>Splitting and the loop body\<close>

lemma split_from_not_Nil: "split_from sep cur s \<noteq> []"
  by (induction s arbitrary: cur) auto

lemma Split_not_Nil: "Split s sep \<noteq> []"
  by (simp add: Split_def split_from_not_Nil)

lemma index_0_Split: "index (Split s sep) 0 = Some (hd (Split s sep))"
  using Split_not_Nil [of s sep] by (cases "Split s sep") (auto simp: index_def)

lemma stat_line_other:
  "index (Split s CHR '' '') 0 \<noteq> Some ''STAT'' \<Longrightarrow> stat_line pf st s = Next st"
  using index_0_Split [of s "CHR '' ''"] by (auto simp: stat_line_def Let_def)

lemma stat_line_info:
  "Split s CHR '' '' = ''STAT'' # k # v # ws \<Longrightarrow> k = ''pid'' \<or> k = ''version'' \<Longrightarrow>
   stat_line pf st s = Next ((fst st)(k \<mapsto> v), snd st)"
  by (auto simp: stat_line_def Let_def index_def)

lemma stat_line_num:
  "Split s CHR '' '' = ''STAT'' # k # v # ws \<Longrightarrow> k \<noteq> ''pid'' \<Longrightarrow> k \<noteq> ''version'' \<Longrightarrow>
   stat_line pf st s =
     (case pf v of Inr f \<Rightarrow> Next (fst st, (snd st)(k \<mapsto> f)) | Inl err \<Rightarrow> ParseFail err)"
  by (auto simp: stat_line_def Let_def index_def)

lemma stat_line_short:
  "index (Split s CHR '' '') 0 = Some ''STAT'' \<Longrightarrow> length (Split s CHR '' '') < 3 \<Longrightarrow>
   stat_line pf st s = IndexPanic"
  by (auto simp: stat_line_def Let_def index_def split: option.splits)

lemma Split_END: "Split ''END'' CHR '' '' = [''END'']"
  by (simp add: Split_def)

text \<open>A line \<^verbatim>\<open>STAT key value\<close> is handled without failure when its value is stored.\<close>

lemma stat_key_value_ok:
  assumes "Split s CHR '' '' = [''STAT'', k, v]"
    and "k = ''pid'' \<or> k = ''version'' \<or> (\<exists>f. pf v = Inr f)"
  shows "line_ok pf s \<and> s \<noteq> ''END''"
proof -
  from assms(1) have "s \<noteq> ''END''" by (auto simp: Split_END)
  moreover have "line_ok pf s"
  proof (cases "k = ''pid'' \<or> k = ''version''")
    case True
    show ?thesis by (simp add: line_ok_def stat_line_info [OF assms(1) True])
  next
    case False
    with assms(2) obtain f where "pf v = Inr f" by blast
    with False show ?thesis by (simp add: line_ok_def stat_line_num [OF assms(1)])
  qed
  ultimately show ?thesis by simp
qed

text \<open>
  Whatever the fields are, a line either overrides them by two maps that depend on the
  line only, or fails to parse with one error, or panics.
\<close>

lemma stat_line_shape:
  "(\<exists>I S. \<forall>i t. stat_line pf (i, t) s = Next (i ++ I, t ++ S)) \<or>
   (\<exists>err. \<forall>st. stat_line pf st s = ParseFail err) \<or>
   (\<forall>st. stat_line pf st s = IndexPanic)"
proof -
  let ?res = "Split s CHR '' ''"
  show ?thesis
  proof (cases "index ?res 0 = Some ''STAT''")
    case False
    then have "\<forall>i t. stat_line pf (i, t) s = Next (i ++ Map.empty, t ++ Map.empty)"
      by (simp add: stat_line_other)
    then show ?thesis by blast
  next
    case stat: True
    show ?thesis
    proof (cases "length ?res < 3")
      case True
      with stat show ?thesis by (simp add: stat_line_short)
    next
      case False
      with stat obtain k v ws where res: "?res = ''STAT'' # k # v # ws"
        by (cases ?res; cases "tl ?res"; cases "tl (tl ?res)") (auto simp: index_def)
      show ?thesis
      proof (cases "k = ''pid'' \<or> k = ''version''")
        case True
        have "\<forall>i t. stat_line pf (i, t) s = Next (i ++ [k \<mapsto> v], t ++ Map.empty)"
          by (simp add: stat_line_info [OF res True])
        then show ?thesis by blast
      next
        case nk: False
        show ?thesis
        proof (cases "pf v")
          case (Inl err)
          with nk have "\<forall>st. stat_line pf st s = ParseFail err"
            using stat_line_num [OF res, of pf] by simp
          then show ?thesis by blast
        next
          case (Inr f)
          with nk have "\<forall>i t. stat_line pf (i, t) s = Next (i ++ Map.empty, t ++ [k \<mapsto> f])"
            using stat_line_num [OF res, of pf] by simp
          then show ?thesis by blast
        qed
      qed
    qed
  qed
qed

lemma line_ok_Next: "line_ok pf s \<Longrightarrow> stat_line pf st s = Next (fields_after pf st s)"
proof -
  assume ok: "line_ok pf s"
  from stat_line_shape [of pf s] consider
    (a) I S where "\<forall>i t. stat_line pf (i, t) s = Next (i ++ I, t ++ S)"
  | (b) err where "\<forall>st. stat_line pf st s = ParseFail err"
  | (c) "\<forall>st. stat_line pf st s = IndexPanic" by blast
  then show ?thesis
  proof cases
    case a
    then have "stat_line pf (fst st, snd st) s = Next (fst st ++ I, snd st ++ S)" by blast
    then show ?thesis by (simp add: fields_after_def)
  next
    case b
    with ok show ?thesis by (simp add: line_ok_def)
  next
    case c
    with ok show ?thesis by (simp add: line_ok_def)
  qed
qed

lemma ParseFail_any_fields:
  "stat_line pf st0 s = ParseFail err \<Longrightarrow> stat_line pf st s = ParseFail err"
proof -
  assume f: "stat_line pf st0 s = ParseFail err"
  from stat_line_shape [of pf s] consider
    (a) I S where "\<forall>i t. stat_line pf (i, t) s = Next (i ++ I, t ++ S)"
  | (b) err' where "\<forall>st. stat_line pf st s = ParseFail err'"
  | (c) "\<forall>st. stat_line pf st s = IndexPanic" by blast
  then show ?thesis
  proof cases
    case a
    then have "stat_line pf (fst st0, snd st0) s = Next (fst st0 ++ I, snd st0 ++ S)" by blast
    with f show ?thesis by simp
  next
    case b
    then have "stat_line pf st0 s = ParseFail err'" and "stat_line pf st s = ParseFail err'"
      by blast+
    with f show ?thesis by simp
  next
    case c
    then have "stat_line pf st0 s = IndexPanic" by blast
    with f show ?thesis by simp
  qed
qed

subsection \<open>The scan loop on lines that are handled without failure\<close>

lemma scan_loop_ok_prefix:
  "\<forall>(s, e) \<in> set pre. s \<noteq> ''END'' \<and> line_ok pf s \<Longrightarrow>
   scan_loop pf st (pre @ rest) fin = scan_loop pf (accumulated pf st (map fst pre)) rest fin"
proof (induction pre arbitrary: st)
  case Nil
  then show ?case by (simp add: accumulated_def)
next
  case (Cons a pre)
  obtain s e where a: "a = (s, e)" by (cases a)
  from Cons.prems a have s: "s \<noteq> ''END''" "line_ok pf s" by auto
  from Cons.prems have "\<forall>(s, e) \<in> set pre. s \<noteq> ''END'' \<and> line_ok pf s" by simp
  from Cons.IH [OF this] s a show ?case
    by (simp add: line_ok_Next accumulated_def)
qed

lemma fields_after_shape: "\<exists>I S. \<forall>i t. fields_after pf (i, t) s = (i ++ I, t ++ S)"
proof -
  from stat_line_shape [of pf s] consider
    (a) I S where "\<forall>i t. stat_line pf (i, t) s = Next (i ++ I, t ++ S)"
  | (b) err where "\<forall>st. stat_line pf st s = ParseFail err"
  | (c) "\<forall>st. stat_line pf st s = IndexPanic" by blast
  then show ?thesis
  proof cases
    case a
    then have "\<forall>i t. fields_after pf (i, t) s = (i ++ I, t ++ S)"
      by (simp add: fields_after_def)
    then show ?thesis by blast
  next
    case b
    then have "\<forall>i t. fields_after pf (i, t) s = (i ++ Map.empty, t ++ Map.empty)"
      by (simp add: fields_after_def)
    then show ?thesis by blast
  next
    case c
    then have "\<forall>i t. fields_after pf (i, t) s = (i ++ Map.empty, t ++ Map.empty)"
      by (simp add: fields_after_def)
    then show ?thesis by blast
  qed
qed

lemma accumulated_shape: "\<exists>I S. \<forall>i t. accumulated pf (i, t) ls = (i ++ I, t ++ S)"
proof (induction ls rule: rev_induct)
  case Nil
  have "\<forall>i t. accumulated pf (i, t) [] = (i ++ Map.empty, t ++ Map.empty)"
    by (simp add: accumulated_def)
  then show ?case by blast
next
  case (snoc l ls)
  then obtain I S where 1: "\<forall>i t. accumulated pf (i, t) ls = (i ++ I, t ++ S)" by blast
  obtain I' S' where 2: "\<forall>i t. fields_after pf (i, t) l = (i ++ I', t ++ S')"
    using fields_after_shape by blast
  have "\<forall>i t. accumulated pf (i, t) (ls @ [l]) = (i ++ (I ++ I'), t ++ (S ++ S'))"
    using 1 2 by (simp add: accumulated_def)
  then show ?case by blast
qed

text \<open>Running the same lines again over the fields they produced changes nothing.\<close>

lemma accumulated_twice: "accumulated pf (accumulated pf st ls) ls = accumulated pf st ls"
proof -
  obtain I S where *: "\<forall>i t. accumulated pf (i, t) ls = (i ++ I, t ++ S)"
    using accumulated_shape by blast
  obtain i t where st: "st = (i, t)" by (cases st)
  have "i ++ I ++ I = i ++ I" "t ++ S ++ S = t ++ S"
    by (auto simp: map_add_def fun_eq_iff split: option.splits)
  with * show ?thesis unfolding st by simp
qed

lemma pf_sample_100: "pf_sample ''100'' = Inr 100"
  by (simp add: pf_sample_def)

lemma pf_sample_7: "pf_sample ''7'' = Inr 7"
  by (simp add: pf_sample_def)

lemma pf_sample_abc: "pf_sample ''abc'' = Inl (Error ''invalid syntax'')"
  by (simp add: pf_sample_def)

text \<open>The loop body panics on the lines that cannot be indexed, and on no other line.\<close>

lemma IndexPanic_iff: "stat_line pf st s = IndexPanic \<longleftrightarrow> \<not> indexable s"
proof (cases "index (Split s CHR '' '') 0 = Some ''STAT''")
  case False
  then show ?thesis by (simp add: stat_line_other indexable_def)
next
  case stat: True
  show ?thesis
  proof (cases "length (Split s CHR '' '') < 3")
    case True
    with stat show ?thesis by (simp add: stat_line_short indexable_def)
  next
    case False
    with stat obtain k v ws where res: "Split s CHR '' '' = ''STAT'' # k # v # ws"
      by (cases "Split s CHR '' ''"; cases "tl (Split s CHR '' '')";
          cases "tl (tl (Split s CHR '' ''))") (auto simp: index_def)
    have "stat_line pf st s \<noteq> IndexPanic"
    proof (cases "k = ''pid'' \<or> k = ''version''")
      case True
      then show ?thesis by (simp add: stat_line_info [OF res])
    next
      case False
      then show ?thesis by (simp add: stat_line_num [OF res] split: sum.splits)
    qed
    with stat res show ?thesis by (simp add: indexable_def)
  qed
qed

lemma indexable_cases:
  assumes "indexable s"
  shows "line_ok pf s \<or> (\<exists>err. stat_line pf (Map.empty, Map.empty) s = ParseFail err)"
proof (cases "stat_line pf (Map.empty, Map.empty) s")
  case (Next st')
  then show ?thesis by (simp add: line_ok_def)
next
  case (ParseFail err)
  then show ?thesis by simp
next
  case IndexPanic
  with assms show ?thesis by (simp add: IndexPanic_iff)
qed

text \<open>Every line \<^verbatim>\<open>STAT key value\<close> can be indexed and is not \<^verbatim>\<open>END\<close>.\<close>

lemma stat_key_value_indexable:
  "Split s CHR '' '' = ''STAT'' # k # v # ws \<Longrightarrow> indexable s \<and> s \<noteq> ''END''"
  by (auto simp: indexable_def Split_END)

lemma ParseFail_not_END: "stat_line pf st s = ParseFail err \<Longrightarrow> s \<noteq> ''END''"
  by (auto simp: stat_line_other Split_END index_def)

text \<open>
  Among lines that can be indexed and end in one whose value does not parse, there is a
  first line whose value does not parse.
\<close>

lemma first_parse_failure:
  assumes "\<forall>(s, e) \<in> set (pre :: (string \<times> error option) list). s \<noteq> ''END'' \<and> indexable s"
    and "stat_line pf (Map.empty, Map.empty) l = ParseFail perr"
  shows "\<exists>p1 b eb p2 berr.
           pre @ [(l, e)] = p1 @ (b, eb) # p2 \<and>
           (\<forall>(s, e) \<in> set p1. s \<noteq> ''END'' \<and> line_ok pf s) \<and>
           stat_line pf (Map.empty, Map.empty) b = ParseFail berr \<and>
           ((\<forall>(s, e) \<in> set pre. line_ok pf s) \<longrightarrow> berr = perr)"
  using assms(1)
proof (induction pre)
  case Nil
  show ?case
  proof (intro exI conjI)
    show "[] @ [(l, e)] = [] @ (l, e) # []" by simp
    show "\<forall>(s, e) \<in> set ([] :: (string \<times> error option) list). s \<noteq> ''END'' \<and> line_ok pf s"
      by simp
    show "stat_line pf (Map.empty, Map.empty) l = ParseFail perr" by (rule assms(2))
    show "(\<forall>(s, e) \<in> set ([] :: (string \<times> error option) list). line_ok pf s) \<longrightarrow> perr = perr"
      by simp
  qed
next
  case (Cons a pre)
  obtain s es where a: "a = (s, es)" by (cases a)
  from Cons.prems a have s: "s \<noteq> ''END''" "indexable s" by simp_all
  from indexable_cases [OF s(2), of pf] show ?case
  proof
    assume ok: "line_ok pf s"
    from Cons.prems have "\<forall>(s, e) \<in> set pre. s \<noteq> ''END'' \<and> indexable s" by simp
    from Cons.IH [OF this] obtain p1 b eb p2 berr where
      d: "pre @ [(l, e)] = p1 @ (b, eb) # p2"
      and p1: "\<forall>(s, e) \<in> set p1. s \<noteq> ''END'' \<and> line_ok pf s"
      and b: "stat_line pf (Map.empty, Map.empty) b = ParseFail berr"
      and same: "(\<forall>(s, e) \<in> set pre. line_ok pf s) \<longrightarrow> berr = perr"
      by (elim exE conjE)
    show ?thesis
    proof (intro exI conjI)
      from d a show "(a # pre) @ [(l, e)] = ((s, es) # p1) @ (b, eb) # p2" by simp
      from p1 s ok show "\<forall>(s, e) \<in> set ((s, es) # p1). s \<noteq> ''END'' \<and> line_ok pf s"
        by simp
      show "stat_line pf (Map.empty, Map.empty) b = ParseFail berr" by (rule b)
      from same show "(\<forall>(s, e) \<in> set (a # pre). line_ok pf s) \<longrightarrow> berr = perr"
        by simp
    qed
  next
    assume "\<exists>err. stat_line pf (Map.empty, Map.empty) s = ParseFail err"
    then obtain err where f: "stat_line pf (Map.empty, Map.empty) s = ParseFail err" ..
    then have nok: "\<not> line_ok pf s" by (simp add: line_ok_def)
    show ?thesis
    proof (intro exI conjI)
      from a show "(a # pre) @ [(l, e)] = [] @ (s, es) # (pre @ [(l, e)])" by simp
      show "\<forall>(s, e) \<in> set ([] :: (string \<times> error option) list). s \<noteq> ''END'' \<and> line_ok pf s"
        by simp
      show "stat_line pf (Map.empty, Map.empty) s = ParseFail err" by (rule f)
      from nok a show "(\<forall>(s, e) \<in> set (a # pre). line_ok pf s) \<longrightarrow> err = perr" by simp
    qed
  qed
qed

text \<open>The loop returns at the first line whose value does not parse.\<close>

lemma scan_loop_parse_failure:
  assumes "\<forall>(s, e) \<in> set p1. s \<noteq> ''END'' \<and> line_ok pf s"
    and "stat_line pf (Map.empty, Map.empty) b = ParseFail berr"
  shows "scan_loop pf st (p1 @ (b, eb) # rest) fin = Returned None None (Some berr)"
proof -
  from assms(2) have "b \<noteq> ''END''" by (rule ParseFail_not_END)
  moreover have "stat_line pf (accumulated pf st (map fst p1)) b = ParseFail berr"
    using ParseFail_any_fields [OF assms(2)] .
  ultimately have "scan_loop pf (accumulated pf st (map fst p1)) ((b, eb) # rest) fin =
      Returned None None (Some berr)"
    by simp
  then show ?thesis by (simp only: scan_loop_ok_prefix [OF assms(1)])
qed

subsection \<open>The poll cycle\<close>

lemma seconds_1: "seconds 1 = 1000000000"
  by (simp add: seconds_def Second_def)

lemma seconds_30: "seconds 30 = 30000000000"
  by (simp add: seconds_def Second_def)

text \<open>An interval beyond the range of \<^verbatim>\<open>int64\<close> nanoseconds wraps to a negative duration.\<close>

lemma seconds_wraps: "sint (seconds 9223372037) = - 9223372036709551616"
  by (simp add: seconds_def Second_def)

lemma poll_cycle_error:
  "getKatsubushiStats pf d = Returned info stats (Some err) \<Longrightarrow>
   poll_cycle pf valid metricsInterval d g = Slept g (Some (LogError err)) (seconds 1)"
  by (simp add: poll_cycle_def retryDuration_def)

text \<open>When a cycle publishes, and when it dies in the gauge library.\<close>

lemma poll_cycle_publishes:
  assumes "getKatsubushiStats pf d = Returned info stats None"
    and "str_at info ''version'' \<noteq> []" and "str_at info ''pid'' \<noteq> []"
    and "valid (str_at info ''version'')" and "valid (str_at info ''pid'')"
  shows "\<exists>g'. publish valid info stats g = Some g' \<and>
           poll_cycle pf valid metricsInterval d g = Slept g' None (seconds metricsInterval)"
  using assms by (simp add: poll_cycle_def publish_def)

lemma poll_cycle_label_panic:
  assumes "getKatsubushiStats pf d = Returned info stats None"
    and "str_at info ''version'' \<noteq> []" and "str_at info ''pid'' \<noteq> []"
    and "\<not> valid (str_at info ''version'') \<or> \<not> valid (str_at info ''pid'')"
  shows "poll_cycle pf valid metricsInterval d g = Crashed"
  using assms by (auto simp: poll_cycle_def publish_def)

lemma poll_cycle_published:
  assumes "getKatsubushiStats pf d = Returned info stats None"
    and "poll_cycle pf valid metricsInterval d g = Slept g' None t"
  shows "publish valid info stats g = Some g'"
  using assms by (auto simp: poll_cycle_def split: if_splits option.splits)

subsection \<open>Concrete replies\<close>

lemma line_ok_info: "line_ok pf_sample ''STAT pid 42''" "line_ok pf_sample ''STAT version 1.2.3''"
  by (simp_all add: line_ok_def stat_line_def Split_def index_def)

lemma line_ok_uptime: "line_ok pf_sample ''STAT uptime 100''"
  by (simp add: line_ok_def stat_line_def Split_def index_def pf_sample_100)

lemma two_lines_ok:
  "\<forall>(s, e) \<in> set [(''STAT pid 42'', None :: error option), (''STAT uptime 100'', None)].
      s \<noteq> ''END'' \<and> line_ok pf_sample s"
  by (simp add: line_ok_info line_ok_uptime)

lemma accumulated_two:
  "accumulated pf_sample (Map.empty, Map.empty) [''STAT pid 42'', ''STAT uptime 100''] =
   ([''pid'' \<mapsto> ''42''], [''uptime'' \<mapsto> 100])"
  by (simp add: accumulated_def fields_after_def stat_line_def Split_def index_def pf_sample_100)

lemma Split_bad: "Split ''STAT cmd_get abc'' CHR '' '' = [''STAT'', ''cmd_get'', ''abc'']"
  by (simp add: Split_def)

lemma bad_line_fails:
  "stat_line pf_sample (Map.empty, Map.empty) ''STAT cmd_get abc'' =
   ParseFail (Error ''invalid syntax'')"
  by (simp add: stat_line_def Split_def index_def pf_sample_abc)

lemma reply_no_identity:
  "getKatsubushiStats pf_sample (Connected [(''STAT uptime 100'', None), (''END'', None)] None) =
   Returned (Some Map.empty) (Some [''uptime'' \<mapsto> 100]) None"
  by (simp add: getKatsubushiStats_def stat_line_def Split_def index_def pf_sample_100)

lemma scenario_1:
  "getKatsubushiStats pf_sample
     (Connected [(''STAT version 1.2.3'', None), (''STAT pid 42'', None),
                 (''STAT uptime 100'', None), (''END'', None)] None) =
   Returned (Some [''version'' \<mapsto> ''1.2.3'', ''pid'' \<mapsto> ''42''])
     (Some [''uptime'' \<mapsto> 100]) None"
  by (simp add: getKatsubushiStats_def stat_line_def Split_def index_def pf_sample_100)

lemma reply_without_uptime:
  "getKatsubushiStats pf_sample
     (Connected [(''STAT version 1.2.3'', None), (''STAT pid 42'', None),
                 (''STAT get_hits 100'', None), (''END'', None)] None) =
   Returned (Some [''version'' \<mapsto> ''1.2.3'', ''pid'' \<mapsto> ''42''])
     (Some [''get_hits'' \<mapsto> 100]) None"
  by (simp add: getKatsubushiStats_def stat_line_def Split_def index_def pf_sample_100)

text \<open>A version that is the single byte \<^verbatim>\<open>0xFF\<close> is refused as a label: the process dies.\<close>

lemma label_panic_example:
  "poll_cycle pf_sample ascii_only 30
     (Connected [(''STAT version '' @ [CHR 0xFF], None), (''STAT pid 42'', None),
                 (''END'', None)] None) stale_gauges = Crashed"
  by (simp add: poll_cycle_def publish_def getKatsubushiStats_def stat_line_def Split_def
      index_def str_at_def ascii_only_def)

subsection \<open>The keys of the two maps\<close>

lemma stat_line_separated:
  "stat_line pf st s = Next st' \<Longrightarrow> separated st \<Longrightarrow> separated st'"
  by (auto simp: stat_line_def Let_def separated_def split: option.splits if_splits sum.splits)
    blast+

lemma scan_loop_separated:
  "scan_loop pf st toks fin = Returned (Some i) (Some t) err \<Longrightarrow> separated st \<Longrightarrow>
   separated (i, t)"
proof (induction toks arbitrary: st)
  case Nil
  then show ?case by (cases st) auto
next
  case (Cons a toks)
  obtain s e where a: "a = (s, e)" by (cases a)
  show ?case
  proof (cases "s = ''END''")
    case True
    with Cons.prems a show ?thesis by (cases st) auto
  next
    case False
    with Cons.prems a obtain st' where st': "stat_line pf st s = Next st'"
      and run: "scan_loop pf st' toks fin = Returned (Some i) (Some t) err"
      by (auto split: step.splits)
    from Cons.IH [OF run stat_line_separated [OF st' Cons.prems(2)]] show ?thesis .
  qed
qed

lemma num_at_absent: "absent stats k \<Longrightarrow> num_at stats k = 0"
  by (auto simp: absent_def num_at_def split: option.splits)

lemma same_lines_ok:
  assumes "map fst body' = map fst body" and "\<forall>(s, e) \<in> set body. P s"
  shows "\<forall>(s, e) \<in> set body'. P s"
proof -
  { fix s e assume "(s, e) \<in> set body'"
    then have "s \<in> set (map fst body')" by force
    then have "s \<in> set (map fst body)" by (simp only: assms(1))
    then obtain e0 where "(s, e0) \<in> set body" by auto
    with assms(2) have "P s" by blast }
  then show ?thesis by blast
qed

section \<open>The claims\<close>

subsection \<open>C1: a STAT line with fewer than three tokens\<close>

text \<open>
  Claim C1 says that a line whose first token is \<^verbatim>\<open>STAT\<close> and that has fewer than three
  tokens is ignored and the parse goes on. The code does the opposite: on every such
  line, whatever the fields, the rest of the stream and the scanner's state are, the index
  expression \<^verbatim>\<open>res[1]\<close> or \<^verbatim>\<open>res[2]\<close> panics, so the call does not return and the poll
  loop's process ends.
\<close>

theorem C1_short_stat_line_panics:
  assumes "index (Split s CHR '' '') 0 = Some ''STAT''" and "length (Split s CHR '' '') < 3"
  shows "scan_loop pf st ((s, e) # rest) fin = Panicked \<and>
         getKatsubushiStats pf (Connected ((s, e) # rest) fin) = Panicked \<and>
         poll_cycle pf valid metricsInterval (Connected ((s, e) # rest) fin) g = Crashed"
proof -
  from assms(1) have "s \<noteq> ''END''" by (auto simp: Split_END index_def)
  with assms have "\<And>st. scan_loop pf st ((s, e) # rest) fin = Panicked"
    by (simp add: stat_line_short)
  then show ?thesis
    by (simp add: getKatsubushiStats_def poll_cycle_def del: scan_loop.simps)
qed

theorem C1_short_stat_line_panics_witness:
  "getKatsubushiStats pf_sample (Connected [(''STAT'', None), (''END'', None)] None) = Panicked \<and>
   getKatsubushiStats pf_sample (Connected [(''STAT uptime'', None), (''END'', None)] None) =
     Panicked \<and>
   poll_cycle pf_sample ascii_only 30 (Connected [(''STAT'', None), (''END'', None)] None)
     fresh_gauges = Crashed"
proof -
  have 1: "index (Split ''STAT'' CHR '' '') 0 = Some ''STAT''"
    "length (Split ''STAT'' CHR '' '') < 3"
    by (simp_all add: Split_def index_def)
  have 2: "index (Split ''STAT uptime'' CHR '' '') 0 = Some ''STAT''"
    "length (Split ''STAT uptime'' CHR '' '') < 3"
    by (simp_all add: Split_def index_def)
  from C1_short_stat_line_panics [OF 1, of pf_sample "(Map.empty, Map.empty)" None
      "[(''END'', None)]" None ascii_only 30 fresh_gauges]
    C1_short_stat_line_panics [OF 2, of pf_sample "(Map.empty, Map.empty)" None
      "[(''END'', None)]" None ascii_only 30 fresh_gauges]
  show ?thesis by simp
qed

subsection \<open>C2: a value that does not parse\<close>

text \<open>
  Claim C2: a reply is lines before \<^verbatim>\<open>END\<close>, each of which the loop body can index (every
  line \<^verbatim>\<open>STAT key value\<close> is such a line, lemma \<open>stat_key_value_indexable\<close>). When it contains a \<^verbatim>\<open>STAT\<close> line with a key
  other than \<^verbatim>\<open>pid\<close> and \<^verbatim>\<open>version\<close> and a value that does not parse, the fetch is
  aborted at the first line of the reply whose value does not parse: whatever the earlier
  lines stored and whatever follows, \<^verbatim>\<open>getKatsubushiStats\<close> returns \<^verbatim>\<open>nil, nil\<close> and the
  parse error of that line, which is the error of the given line when the lines before
  it are handled without failure. The poll cycle logs the error, sleeps the one second
  of the retry delay and leaves every gauge as it was, and the loop goes on from the same
  gauges: nothing of the reply is published.
\<close>

theorem C2_parse_failure_aborts_fetch:
  assumes "\<forall>(s, e) \<in> set pre. s \<noteq> ''END'' \<and> indexable s"
    and "Split l CHR '' '' = ''STAT'' # k # v # ws"
    and "k \<noteq> ''pid''" and "k \<noteq> ''version''" and "pf v = Inl perr"
  shows "\<exists>p1 b eb p2 berr.
           pre @ [(l, e)] = p1 @ (b, eb) # p2 \<and>
           (\<forall>(s, e) \<in> set p1. s \<noteq> ''END'' \<and> line_ok pf s) \<and>
           stat_line pf (Map.empty, Map.empty) b = ParseFail berr \<and>
           ((\<forall>(s, e) \<in> set pre. line_ok pf s) \<longrightarrow> berr = perr) \<and>
           getKatsubushiStats pf (Connected (pre @ (l, e) # rest) fin) =
             Returned None None (Some berr) \<and>
           poll_cycle pf valid metricsInterval (Connected (pre @ (l, e) # rest) fin) g =
             Slept g (Some (LogError berr)) (seconds 1) \<and>
           poll_loop pf valid metricsInterval g (Connected (pre @ (l, e) # rest) fin # ds) =
             poll_loop pf valid metricsInterval g ds"
proof -
  have l: "stat_line pf (Map.empty, Map.empty) l = ParseFail perr"
    using stat_line_num [OF assms(2,3,4), of pf] assms(5) by simp
  from first_parse_failure [OF assms(1) l, of e] obtain p1 b eb p2 berr where
    d: "pre @ [(l, e)] = p1 @ (b, eb) # p2"
    and p1: "\<forall>(s, e) \<in> set p1. s \<noteq> ''END'' \<and> line_ok pf s"
    and b: "stat_line pf (Map.empty, Map.empty) b = ParseFail berr"
    and same: "(\<forall>(s, e) \<in> set pre. line_ok pf s) \<longrightarrow> berr = perr"
    by (elim exE conjE)
  have "pre @ (l, e) # rest = (pre @ [(l, e)]) @ rest" by simp
  also have "\<dots> = p1 @ (b, eb) # (p2 @ rest)" by (simp only: d) simp
  finally have toks: "pre @ (l, e) # rest = p1 @ (b, eb) # (p2 @ rest)" .
  have r: "getKatsubushiStats pf (Connected (pre @ (l, e) # rest) fin) =
      Returned None None (Some berr)"
    unfolding toks by (simp add: getKatsubushiStats_def scan_loop_parse_failure [OF p1 b])
  have c: "poll_cycle pf valid metricsInterval (Connected (pre @ (l, e) # rest) fin) g =
      Slept g (Some (LogError berr)) (seconds 1)"
    by (rule poll_cycle_error [OF r])
  then have "poll_loop pf valid metricsInterval g (Connected (pre @ (l, e) # rest) fin # ds) =
      poll_loop pf valid metricsInterval g ds"
    by simp
  then have lp: "poll_loop pf valid metricsInterval g
        (Connected (pre @ (l, e) # rest) fin # ds) = poll_loop pf valid metricsInterval g ds" .
  show ?thesis
  proof (intro exI conjI)
    show "pre @ [(l, e)] = p1 @ (b, eb) # p2" by (rule d)
    show "\<forall>(s, e) \<in> set p1. s \<noteq> ''END'' \<and> line_ok pf s" by (rule p1)
    show "stat_line pf (Map.empty, Map.empty) b = ParseFail berr" by (rule b)
    show "(\<forall>(s, e) \<in> set pre. line_ok pf s) \<longrightarrow> berr = perr" by (rule same)
    show "getKatsubushiStats pf (Connected (pre @ (l, e) # rest) fin) =
        Returned None None (Some berr)" by (rule r)
    show "poll_cycle pf valid metricsInterval (Connected (pre @ (l, e) # rest) fin) g =
        Slept g (Some (LogError berr)) (seconds 1)" by (rule c)
    show "poll_loop pf valid metricsInterval g (Connected (pre @ (l, e) # rest) fin # ds) =
        poll_loop pf valid metricsInterval g ds" by (rule lp)
  qed
qed

theorem C2_parse_failure_aborts_fetch_witness:
  "getKatsubushiStats pf_sample
     (Connected [(''STAT uptime 100'', None), (''STAT cmd_get abc'', None), (''END'', None)]
        None) =
     Returned None None (Some (Error ''invalid syntax'')) \<and>
   poll_cycle pf_sample ascii_only 30
     (Connected [(''STAT uptime 100'', None), (''STAT cmd_get abc'', None), (''END'', None)]
        None)
     stale_gauges =
     Slept stale_gauges (Some (LogError (Error ''invalid syntax''))) (seconds 1)"
proof -
  have pre: "\<forall>(s, e) \<in> set [(''STAT uptime 100'', None :: error option)].
      s \<noteq> ''END'' \<and> indexable s"
    by (simp add: indexable_def Split_def index_def)
  have ok: "\<forall>(s, e) \<in> set [(''STAT uptime 100'', None :: error option)]. line_ok pf_sample s"
    by (simp add: line_ok_uptime)
  have k: "''cmd_get'' \<noteq> ''pid''" "''cmd_get'' \<noteq> ''version''" by simp_all
  from C2_parse_failure_aborts_fetch [where pf = pf_sample and perr = "Error ''invalid syntax''"
      and v = "''abc''" and e = None and rest = "[(''END'', None)]" and fin = None
      and valid = ascii_only and metricsInterval = 30 and g = stale_gauges and ds = "[]",
      OF pre Split_bad k pf_sample_abc]
  obtain berr where
    same: "(\<forall>(s, e) \<in> set [(''STAT uptime 100'', None :: error option)].
        line_ok pf_sample s) \<longrightarrow> berr = Error ''invalid syntax''"
    and r: "getKatsubushiStats pf_sample
      (Connected ([(''STAT uptime 100'', None)] @ (''STAT cmd_get abc'', None) #
        [(''END'', None)]) None) = Returned None None (Some berr)"
    and c: "poll_cycle pf_sample ascii_only 30
      (Connected ([(''STAT uptime 100'', None)] @ (''STAT cmd_get abc'', None) #
        [(''END'', None)]) None) stale_gauges =
      Slept stale_gauges (Some (LogError berr)) (seconds 1)"
    by (elim exE conjE)
  from same ok have "berr = Error ''invalid syntax''" by (rule mp)
  with r c show ?thesis by simp
qed

subsection \<open>C3: a fetch without version or pid\<close>

text \<open>
  Claim C3: when the fetch returns no error and \<^verbatim>\<open>info["version"]\<close> or \<^verbatim>\<open>info["pid"]\<close>
  is the empty string (the key may be absent), the cycle logs the retry line, sleeps the
  one second of the retry delay and leaves all seven gauge vectors as they were; the loop
  goes on from the same gauges.
\<close>

theorem C3_missing_identity_not_published:
  assumes "getKatsubushiStats pf d = Returned info stats None"
    and "str_at info ''version'' = [] \<or> str_at info ''pid'' = []"
  shows "poll_cycle pf valid metricsInterval d g =
           Slept g (Some (LogInfo ''Retry since info(version or pid) is empty''))
             (seconds 1) \<and>
         sint (seconds 1) = 1000000000 \<and>
         poll_loop pf valid metricsInterval g (d # ds) =
           poll_loop pf valid metricsInterval g ds"
proof -
  from assms have "poll_cycle pf valid metricsInterval d g =
      Slept g (Some (LogInfo ''Retry since info(version or pid) is empty'')) (seconds 1)"
    by (simp add: poll_cycle_def retryDuration_def)
  moreover have "sint (seconds 1) = 1000000000" by (simp add: seconds_1)
  ultimately show ?thesis by simp
qed

theorem C3_missing_identity_not_published_witness:
  "poll_cycle pf_sample ascii_only 30
     (Connected [(''STAT uptime 100'', None), (''END'', None)] None) stale_gauges =
   Slept stale_gauges (Some (LogInfo ''Retry since info(version or pid) is empty''))
     (seconds 1) \<and>
   poll_loop pf_sample ascii_only 30 stale_gauges
     [Connected [(''STAT uptime 100'', None), (''END'', None)] None] = Some stale_gauges"
proof -
  have "str_at (Some Map.empty) ''version'' = [] \<or> str_at (Some Map.empty) ''pid'' = []"
    by (simp add: str_at_def)
  from C3_missing_identity_not_published [OF reply_no_identity this,
      of ascii_only 30 stale_gauges "[]"]
  show ?thesis by simp
qed

subsection \<open>C4: which map a STAT line goes to\<close>

text \<open>
  Claim C4: a \<^verbatim>\<open>STAT\<close> line with key \<^verbatim>\<open>pid\<close> or \<^verbatim>\<open>version\<close> stores its value in the info
  map and leaves the stats map as it is; a \<^verbatim>\<open>STAT\<close> line with another key and a value that
  parses stores the parsed value in the stats map and leaves the info map as it is; so in
  every pair of maps a call returns, the info map has no key but \<^verbatim>\<open>pid\<close> and \<^verbatim>\<open>version\<close>
  and the stats map has neither.
\<close>

theorem C4_info_and_stats_keys_disjoint:
  "(Split s CHR '' '' = ''STAT'' # k # v # ws \<and> (k = ''pid'' \<or> k = ''version'') \<longrightarrow>
      stat_line pf (i, t) s = Next (i(k \<mapsto> v), t)) \<and>
   (Split s CHR '' '' = ''STAT'' # k # v # ws \<and> k \<noteq> ''pid'' \<and> k \<noteq> ''version'' \<and>
      pf v = Inr f \<longrightarrow>
      stat_line pf (i, t) s = Next (i, t(k \<mapsto> f))) \<and>
   (getKatsubushiStats pf d = Returned (Some info) (Some stats) err \<longrightarrow>
      dom info \<subseteq> {''pid'', ''version''} \<and> ''pid'' \<notin> dom stats \<and> ''version'' \<notin> dom stats)"
proof -
  have a: "Split s CHR '' '' = ''STAT'' # k # v # ws \<and> (k = ''pid'' \<or> k = ''version'') \<longrightarrow>
      stat_line pf (i, t) s = Next (i(k \<mapsto> v), t)"
    using stat_line_info [of s k v ws pf "(i, t)"] by simp
  have b: "Split s CHR '' '' = ''STAT'' # k # v # ws \<and> k \<noteq> ''pid'' \<and> k \<noteq> ''version'' \<and>
      pf v = Inr f \<longrightarrow>
      stat_line pf (i, t) s = Next (i, t(k \<mapsto> f))"
    using stat_line_num [of s k v ws pf "(i, t)"] by simp
  have c: "getKatsubushiStats pf d = Returned (Some info) (Some stats) err \<longrightarrow>
      dom info \<subseteq> {''pid'', ''version''} \<and> ''pid'' \<notin> dom stats \<and> ''version'' \<notin> dom stats"
  proof
    assume r: "getKatsubushiStats pf d = Returned (Some info) (Some stats) err"
    then obtain toks fin where d: "d = Connected toks fin"
      by (cases d) (auto simp: getKatsubushiStats_def)
    have "separated (Map.empty, Map.empty)" by (simp add: separated_def)
    with r d have "separated (info, stats)"
      using scan_loop_separated [of pf "(Map.empty, Map.empty)" toks fin info stats err]
      by (simp add: getKatsubushiStats_def)
    then show "dom info \<subseteq> {''pid'', ''version''} \<and> ''pid'' \<notin> dom stats \<and>
        ''version'' \<notin> dom stats"
      by (simp add: separated_def)
  qed
  from a b c show ?thesis by blast
qed

theorem C4_info_and_stats_keys_disjoint_witness:
  "stat_line pf_sample (Map.empty, Map.empty) ''STAT pid 42'' =
     Next ([''pid'' \<mapsto> ''42''], Map.empty) \<and>
   stat_line pf_sample (Map.empty, Map.empty) ''STAT uptime 100'' =
     Next (Map.empty, [''uptime'' \<mapsto> 100]) \<and>
   getKatsubushiStats pf_sample
     (Connected [(''STAT version 1.2.3'', None), (''STAT pid 42'', None),
                 (''STAT uptime 100'', None), (''END'', None)] None) =
     Returned (Some [''version'' \<mapsto> ''1.2.3'', ''pid'' \<mapsto> ''42''])
       (Some [''uptime'' \<mapsto> 100]) None \<and>
   dom [''version'' \<mapsto> ''1.2.3'', ''pid'' \<mapsto> ''42''] \<subseteq> {''pid'', ''version''} \<and>
   ''pid'' \<notin> dom [''uptime'' \<mapsto> (100::int)] \<and>
   ''version'' \<notin> dom [''uptime'' \<mapsto> (100::int)]"
proof -
  have 1: "Split ''STAT pid 42'' CHR '' '' = ''STAT'' # ''pid'' # ''42'' # []"
    by (simp add: Split_def)
  have 2: "Split ''STAT uptime 100'' CHR '' '' = ''STAT'' # ''uptime'' # ''100'' # []"
    by (simp add: Split_def)
  from C4_info_and_stats_keys_disjoint [of "''STAT pid 42''" "''pid''" "''42''" "[]" pf_sample
      Map.empty Map.empty 100
      "Connected [(''STAT version 1.2.3'', None), (''STAT pid 42'', None),
                 (''STAT uptime 100'', None), (''END'', None)] None"
      "[''version'' \<mapsto> ''1.2.3'', ''pid'' \<mapsto> ''42'']" "[''uptime'' \<mapsto> 100]" None]
    C4_info_and_stats_keys_disjoint [of "''STAT uptime 100''" "''uptime''" "''100''" "[]"
      pf_sample Map.empty Map.empty 100
      "Connected [(''STAT version 1.2.3'', None), (''STAT pid 42'', None),
                 (''STAT uptime 100'', None), (''END'', None)] None"
      "[''version'' \<mapsto> ''1.2.3'', ''pid'' \<mapsto> ''42'']" "[''uptime'' \<mapsto> 100]" None]
    1 2 scenario_1 pf_sample_100
  show ?thesis by simp
qed

subsection \<open>C5: a stat key that the reply does not have\<close>

text \<open>
  Claim C5: when a cycle publishes (it logs nothing: the fetch returned no error, both
  \<^verbatim>\<open>version\<close> and \<^verbatim>\<open>pid\<close> are non-empty and the gauge library accepted them as labels),
  each of the six scalar gauges holds the value of its key in the stats map of this
  fetch, and zero when the key is absent from that map, whatever the gauge held before.
\<close>

theorem C5_absent_stat_published_as_zero:
  assumes "getKatsubushiStats pf d = Returned info stats None"
    and "poll_cycle pf valid metricsInterval d g = Slept g' None t"
  shows "katsubushiUptime g' [] = Some (num_at stats ''uptime'') \<and>
         katsubushiCurrConnections g' [] = Some (num_at stats ''curr_connections'') \<and>
         katsubushiTotalConnections g' [] = Some (num_at stats ''total_connections'') \<and>
         katsubushiCmdGet g' [] = Some (num_at stats ''cmd_get'') \<and>
         katsubushiGetHits g' [] = Some (num_at stats ''get_hits'') \<and>
         katsubushiGetMisses g' [] = Some (num_at stats ''get_misses'') \<and>
         (absent stats ''uptime'' \<longrightarrow> katsubushiUptime g' [] = Some 0) \<and>
         (absent stats ''curr_connections'' \<longrightarrow> katsubushiCurrConnections g' [] = Some 0) \<and>
         (absent stats ''total_connections'' \<longrightarrow> katsubushiTotalConnections g' [] = Some 0) \<and>
         (absent stats ''cmd_get'' \<longrightarrow> katsubushiCmdGet g' [] = Some 0) \<and>
         (absent stats ''get_hits'' \<longrightarrow> katsubushiGetHits g' [] = Some 0) \<and>
         (absent stats ''get_misses'' \<longrightarrow> katsubushiGetMisses g' [] = Some 0)"
proof -
  from poll_cycle_published [OF assms] have "publish valid info stats g = Some g'" .
  then show ?thesis
    by (auto simp: publish_def num_at_absent split: if_splits)
qed

theorem C5_absent_stat_published_as_zero_witness:
  "katsubushiUptime stale_gauges [] = Some 7 \<and>
   (\<exists>g'. poll_cycle pf_sample ascii_only 30
       (Connected [(''STAT version 1.2.3'', None), (''STAT pid 42'', None),
                   (''STAT get_hits 100'', None), (''END'', None)] None) stale_gauges =
       Slept g' None (seconds 30) \<and>
     katsubushiUptime g' [] = Some 0 \<and> katsubushiCmdGet g' [] = Some 0 \<and>
     katsubushiGetHits g' [] = Some 100)"
proof -
  have v: "str_at (Some [''version'' \<mapsto> ''1.2.3'', ''pid'' \<mapsto> ''42'']) ''version'' = ''1.2.3''"
    and p: "str_at (Some [''version'' \<mapsto> ''1.2.3'', ''pid'' \<mapsto> ''42'']) ''pid'' = ''42''"
    by (simp_all add: str_at_def)
  have a: "absent (Some [''get_hits'' \<mapsto> (100::int)]) ''uptime''"
    "absent (Some [''get_hits'' \<mapsto> (100::int)]) ''cmd_get''"
    by (simp_all add: absent_def)
  have n: "num_at (Some [''get_hits'' \<mapsto> (100::int)]) ''get_hits'' = 100"
    by (simp add: num_at_def)
  have s: "katsubushiUptime stale_gauges [] = Some 7"
    by (simp add: stale_gauges_def fresh_gauges_def)
  from poll_cycle_publishes [OF reply_without_uptime, of ascii_only stale_gauges 30] v p
  obtain g' where c: "poll_cycle pf_sample ascii_only 30
       (Connected [(''STAT version 1.2.3'', None), (''STAT pid 42'', None),
                   (''STAT get_hits 100'', None), (''END'', None)] None) stale_gauges =
       Slept g' None (seconds 30)"
    by (auto simp: ascii_only_def)
  from C5_absent_stat_published_as_zero [OF reply_without_uptime c] a
  have "katsubushiUptime g' [] = Some 0" "katsubushiCmdGet g' [] = Some 0"
    "katsubushiGetHits g' [] = Some (num_at (Some [''get_hits'' \<mapsto> (100::int)]) ''get_hits'')"
    by blast+
  with n have "katsubushiUptime g' [] = Some 0" "katsubushiCmdGet g' [] = Some 0"
    "katsubushiGetHits g' [] = Some 100"
    by simp_all
  with s c show ?thesis by blast
qed

subsection \<open>C6: a line whose first token is not STAT\<close>

text \<open>
  Claim C6: a line whose first token is not \<^verbatim>\<open>STAT\<close> and that is not \<^verbatim>\<open>END\<close> is ignored.
  The loop body leaves both maps as they are and returns nothing, and the loop goes on
  with the rest of the stream exactly as if the line had not been there.
\<close>

theorem C6_other_line_ignored:
  assumes "index (Split s CHR '' '') 0 \<noteq> Some ''STAT''" and "s \<noteq> ''END''"
  shows "stat_line pf st s = Next st \<and>
         scan_loop pf st ((s, e) # rest) fin = scan_loop pf st rest fin"
  using assms by (simp add: stat_line_other)

theorem C6_other_line_ignored_witness:
  "scan_loop pf_sample (Map.empty, Map.empty)
     [(''VERSION 1.2.3'', None), (''STAT pid 42'', None), (''END'', None)] None =
   scan_loop pf_sample (Map.empty, Map.empty) [(''STAT pid 42'', None), (''END'', None)] None \<and>
   scan_loop pf_sample (Map.empty, Map.empty)
     [(''VERSION 1.2.3'', None), (''STAT pid 42'', None), (''END'', None)] None =
   Returned (Some [''pid'' \<mapsto> ''42'']) (Some Map.empty) None"
proof -
  have 1: "index (Split ''VERSION 1.2.3'' CHR '' '') 0 \<noteq> Some ''STAT''"
    by (simp add: Split_def index_def)
  have 2: "''VERSION 1.2.3'' \<noteq> ''END''" by simp
  have 3: "scan_loop pf_sample (Map.empty, Map.empty)
      [(''STAT pid 42'', None), (''END'', None)] None =
    Returned (Some [''pid'' \<mapsto> ''42'']) (Some Map.empty) None"
    by (simp add: stat_line_def Split_def index_def)
  from C6_other_line_ignored [OF 1 2, of pf_sample "(Map.empty, Map.empty)" None
      "[(''STAT pid 42'', None), (''END'', None)]" None] 3
  show ?thesis by simp
qed

subsection \<open>C7: end of stream without END\<close>

text \<open>
  Claim C7 says that every stream that ends without a line \<^verbatim>\<open>END\<close> is parsed without
  error. As stated it fails on a stream that has a line with a value that does not parse:
  the call returns the parse error and no map, with or without \<^verbatim>\<open>END\<close>.
\<close>

theorem C7_counterexample:
  "''STAT cmd_get abc'' \<noteq> ''END'' \<and>
   getKatsubushiStats pf_sample (Connected [(''STAT cmd_get abc'', None)] None) =
     Returned None None (Some (Error ''invalid syntax''))"
  by (simp add: getKatsubushiStats_def stat_line_def Split_def index_def pf_sample_abc)

text \<open>
  Claim C7, amended: when the stream ends (the scanner reports no read error) without a
  line \<^verbatim>\<open>END\<close> and every line of it is handled without failure, the call returns no
  error and the two maps accumulated over all the lines.
\<close>

theorem C7_end_of_stream_without_END:
  assumes "\<forall>(s, e) \<in> set toks. s \<noteq> ''END'' \<and> line_ok pf s"
  shows "getKatsubushiStats pf (Connected toks None) =
           Returned (Some (fst (accumulated pf (Map.empty, Map.empty) (map fst toks))))
                    (Some (snd (accumulated pf (Map.empty, Map.empty) (map fst toks)))) None"
  using scan_loop_ok_prefix [OF assms, of "(Map.empty, Map.empty)" "[]" None]
  by (simp add: getKatsubushiStats_def)

theorem C7_end_of_stream_without_END_witness:
  "getKatsubushiStats pf_sample
     (Connected [(''STAT pid 42'', None), (''STAT uptime 100'', None)] None) =
   Returned (Some [''pid'' \<mapsto> ''42'']) (Some [''uptime'' \<mapsto> 100]) None"
proof -
  from C7_end_of_stream_without_END [OF two_lines_ok] accumulated_two
  show ?thesis by simp
qed

subsection \<open>C8: parsing the same reply twice\<close>

text \<open>
  Claim C8: a reply whose lines before \<^verbatim>\<open>END\<close> are all handled without failure (as every
  line \<^verbatim>\<open>STAT key value\<close> with a value that parses is, lemma \<open>stat_key_value_ok\<close>) gives the same two maps each time it
  is parsed. The maps are those accumulated over the lines before \<^verbatim>\<open>END\<close>: they do not
  depend on what the scanner reports beside the lines, nor on what follows \<^verbatim>\<open>END\<close>, so
  a second parse of the same lines returns the same maps; and running the loop on the
  reply again, starting from the maps of the first parse, returns these maps once more.
\<close>

theorem C8_parsing_idempotent:
  assumes "\<forall>(s, e) \<in> set body. s \<noteq> ''END'' \<and> line_ok pf s"
    and "map fst body' = map fst body"
  shows "getKatsubushiStats pf (Connected (body @ (''END'', e) # rest) fin) =
           Returned (Some (fst (accumulated pf (Map.empty, Map.empty) (map fst body))))
                    (Some (snd (accumulated pf (Map.empty, Map.empty) (map fst body)))) e \<and>
         getKatsubushiStats pf (Connected (body' @ (''END'', e') # rest') fin') =
           Returned (Some (fst (accumulated pf (Map.empty, Map.empty) (map fst body))))
                    (Some (snd (accumulated pf (Map.empty, Map.empty) (map fst body)))) e' \<and>
         scan_loop pf (accumulated pf (Map.empty, Map.empty) (map fst body))
             (body @ (''END'', e) # rest) fin =
           Returned (Some (fst (accumulated pf (Map.empty, Map.empty) (map fst body))))
                    (Some (snd (accumulated pf (Map.empty, Map.empty) (map fst body)))) e"
proof -
  let ?acc = "accumulated pf (Map.empty, Map.empty) (map fst body)"
  have ok': "\<forall>(s, e) \<in> set body'. s \<noteq> ''END'' \<and> line_ok pf s"
    using same_lines_ok [OF assms(2), of "\<lambda>s. s \<noteq> ''END'' \<and> line_ok pf s"] assms(1) by simp
  have 1: "getKatsubushiStats pf (Connected (body @ (''END'', e) # rest) fin) =
      Returned (Some (fst ?acc)) (Some (snd ?acc)) e"
    by (simp add: getKatsubushiStats_def scan_loop_ok_prefix [OF assms(1)])
  have 2: "getKatsubushiStats pf (Connected (body' @ (''END'', e') # rest') fin') =
      Returned (Some (fst ?acc)) (Some (snd ?acc)) e'"
    by (simp add: getKatsubushiStats_def scan_loop_ok_prefix [OF ok'] assms(2))
  have 3: "scan_loop pf ?acc (body @ (''END'', e) # rest) fin =
      Returned (Some (fst ?acc)) (Some (snd ?acc)) e"
    by (simp add: scan_loop_ok_prefix [OF assms(1)] accumulated_twice)
  from 1 2 3 show ?thesis by simp
qed

theorem C8_parsing_idempotent_witness:
  "getKatsubushiStats pf_sample
     (Connected [(''STAT pid 42'', None), (''STAT uptime 100'', None), (''END'', None)] None) =
     Returned (Some [''pid'' \<mapsto> ''42'']) (Some [''uptime'' \<mapsto> 100]) None \<and>
   getKatsubushiStats pf_sample
     (Connected [(''STAT pid 42'', None), (''STAT uptime 100'', None),
                 (''END'', Some (Error ''reset'')), (''STAT uptime 7'', None)] None) =
     Returned (Some [''pid'' \<mapsto> ''42'']) (Some [''uptime'' \<mapsto> 100])
       (Some (Error ''reset'')) \<and>
   scan_loop pf_sample ([''pid'' \<mapsto> ''42''], [''uptime'' \<mapsto> 100])
     [(''STAT pid 42'', None), (''STAT uptime 100'', None), (''END'', None)] None =
     Returned (Some [''pid'' \<mapsto> ''42'']) (Some [''uptime'' \<mapsto> 100]) None"
proof -
  from C8_parsing_idempotent [OF two_lines_ok refl, of None "[]" None "Some (Error ''reset'')"
      "[(''STAT uptime 7'', None)]" None]
  show ?thesis by (simp add: accumulated_two del: scan_loop.simps)
qed

subsection \<open>C9: the shapes of the error returns\<close>

text \<open>
  Claim C9 says that on a read error of the scanner, after some lines were consumed, the
  call returns the accumulated maps and that error. As stated it fails when the
  connection is cut in the middle of a line: the scanner records the read error and still
  hands out the unterminated line, and when that line is \<^verbatim>\<open>STAT uptime\<close> followed by a
  space, its empty value does not parse, so the call returns \<^verbatim>\<open>nil, nil\<close> and the parse
  error, not the maps and the read error.
\<close>

theorem C9_counterexample:
  "getKatsubushiStats pf_sample
     (Connected [(''STAT pid 42'', None), (''STAT uptime '', Some (Error ''connection reset''))]
        (Some (Error ''connection reset''))) =
   Returned None None (Some (Error ''invalid syntax''))"
  by (simp add: getKatsubushiStats_def stat_line_def Split_def index_def pf_sample_def)

text \<open>
  Claim C9, amended: the error returns differ. A failed dial returns \<^verbatim>\<open>nil, nil, err\<close>. A
  value that does not parse, met after lines that were handled without failure, returns
  \<^verbatim>\<open>nil, nil, err\<close> too. A read error of the scanner is returned, when \<^verbatim>\<open>sc.Scan()\<close>
  returns false or at the line \<^verbatim>\<open>END\<close>, together with the two maps accumulated over the
  lines the scanner handed out, which are not \<^verbatim>\<open>nil\<close>, provided each of these lines (an
  unterminated last one included) was handled without failure.
\<close>

theorem C9_error_return_shapes:
  assumes "\<forall>(s, e) \<in> set pre. s \<noteq> ''END'' \<and> line_ok pf s"
  shows "getKatsubushiStats pf (DialFailed derr) = Returned None None (Some derr) \<and>
         (stat_line pf (Map.empty, Map.empty) l = ParseFail perr \<longrightarrow>
            getKatsubushiStats pf (Connected (pre @ (l, e) # rest) fin) =
              Returned None None (Some perr)) \<and>
         getKatsubushiStats pf (Connected pre (Some rerr)) =
           Returned (Some (fst (accumulated pf (Map.empty, Map.empty) (map fst pre))))
                    (Some (snd (accumulated pf (Map.empty, Map.empty) (map fst pre))))
                    (Some rerr) \<and>
         getKatsubushiStats pf (Connected (pre @ (''END'', Some rerr) # rest) fin) =
           Returned (Some (fst (accumulated pf (Map.empty, Map.empty) (map fst pre))))
                    (Some (snd (accumulated pf (Map.empty, Map.empty) (map fst pre))))
                    (Some rerr)"
proof -
  let ?acc = "accumulated pf (Map.empty, Map.empty) (map fst pre)"
  have a: "getKatsubushiStats pf (DialFailed derr) = Returned None None (Some derr)"
    by (simp add: getKatsubushiStats_def)
  have b: "stat_line pf (Map.empty, Map.empty) l = ParseFail perr \<longrightarrow>
      getKatsubushiStats pf (Connected (pre @ (l, e) # rest) fin) =
        Returned None None (Some perr)"
  proof
    assume f: "stat_line pf (Map.empty, Map.empty) l = ParseFail perr"
    have "l \<noteq> ''END''"
    proof
      assume "l = ''END''"
      then have "stat_line pf (Map.empty, Map.empty) l = Next (Map.empty, Map.empty)"
        by (simp add: stat_line_other Split_END index_def)
      with f show False by simp
    qed
    moreover have "stat_line pf ?acc l = ParseFail perr"
      using ParseFail_any_fields [OF f] .
    ultimately have "scan_loop pf ?acc ((l, e) # rest) fin = Returned None None (Some perr)"
      by simp
    then show "getKatsubushiStats pf (Connected (pre @ (l, e) # rest) fin) =
        Returned None None (Some perr)"
      by (simp add: getKatsubushiStats_def scan_loop_ok_prefix [OF assms] del: scan_loop.simps)
  qed
  have c: "getKatsubushiStats pf (Connected pre (Some rerr)) =
      Returned (Some (fst ?acc)) (Some (snd ?acc)) (Some rerr)"
    using scan_loop_ok_prefix [OF assms, of "(Map.empty, Map.empty)" "[]" "Some rerr"]
    by (simp add: getKatsubushiStats_def)
  have d: "getKatsubushiStats pf (Connected (pre @ (''END'', Some rerr) # rest) fin) =
      Returned (Some (fst ?acc)) (Some (snd ?acc)) (Some rerr)"
    by (simp add: getKatsubushiStats_def scan_loop_ok_prefix [OF assms])
  from a b c d show ?thesis by blast
qed

theorem C9_error_return_shapes_witness:
  "getKatsubushiStats pf_sample (DialFailed (Error ''connection refused'')) =
     Returned None None (Some (Error ''connection refused'')) \<and>
   getKatsubushiStats pf_sample
     (Connected [(''STAT pid 42'', None), (''STAT uptime 100'', None),
                 (''STAT cmd_get abc'', None), (''END'', None)] None) =
     Returned None None (Some (Error ''invalid syntax'')) \<and>
   getKatsubushiStats pf_sample
     (Connected [(''STAT pid 42'', None), (''STAT uptime 100'', None)]
        (Some (Error ''reset''))) =
     Returned (Some [''pid'' \<mapsto> ''42'']) (Some [''uptime'' \<mapsto> 100]) (Some (Error ''reset''))"
proof -
  from C9_error_return_shapes [OF two_lines_ok, of "Error ''connection refused''"
      "''STAT cmd_get abc''" "Error ''invalid syntax''" None "[(''END'', None)]" None
      "Error ''reset''"]
    bad_line_fails
  show ?thesis by (simp add: accumulated_two del: scan_loop.simps)
qed

subsection \<open>C10: the first token always exists\<close>

text \<open>
  Claim C10: splitting any line on single spaces gives at least one token (the empty line
  gives the one empty token), so \<^verbatim>\<open>res[0]\<close> never panics; and when that token is not
  \<^verbatim>\<open>STAT\<close> the loop body ends with the fields unchanged, having read neither \<^verbatim>\<open>res[1]\<close> nor
  \<^verbatim>\<open>res[2]\<close>: it does not panic even on a line of one token.
\<close>

theorem C10_first_token_exists:
  "Split s CHR '' '' \<noteq> [] \<and>
   index (Split s CHR '' '') 0 = Some (hd (Split s CHR '' '')) \<and>
   (hd (Split s CHR '' '') \<noteq> ''STAT'' \<longrightarrow> stat_line pf st s = Next st) \<and>
   Split [] CHR '' '' = [[]] \<and>
   stat_line pf st [] = Next st"
proof -
  have "hd (Split s CHR '' '') \<noteq> ''STAT'' \<longrightarrow> stat_line pf st s = Next st"
    by (simp add: stat_line_other index_0_Split)
  moreover have "Split [] CHR '' '' = [[]]" by (simp add: Split_def)
  moreover have "stat_line pf st [] = Next st"
    by (simp add: stat_line_def Split_def index_def)
  ultimately show ?thesis by (simp add: Split_not_Nil index_0_Split)
qed

theorem C10_first_token_exists_witness:
  "Split ''hello'' CHR '' '' = [''hello''] \<and>
   index (Split ''hello'' CHR '' '') 0 = Some ''hello'' \<and>
   index (Split ''hello'' CHR '' '') 1 = None \<and>
   stat_line pf_sample (Map.empty, Map.empty) ''hello'' = Next (Map.empty, Map.empty)"
proof -
  have s: "Split ''hello'' CHR '' '' = [''hello'']" by (simp add: Split_def)
  from C10_first_token_exists [of "''hello''" pf_sample "(Map.empty, Map.empty)"] s
  show ?thesis by (simp add: index_def)
qed

end
